theory Spec2Isabelle
  imports Main "HOL-Library.Word"
begin

section \<open>Go values shared by the runtime\<close>

text \<open>
  A Go panic is a value of \<open>panic\<close>: the run-time error of a nil pointer dereference,
  the run-time error of closing a closed channel, or \<^verbatim>\<open>panic(v)\<close> with the
  payload rendered as text. A function that can panic returns \<open>panic + 'a\<close>, with
  \<open>Inl\<close> the panic.
\<close>

datatype panic = NilDereference | CloseOfClosedChannel | PanicValue string

text \<open>A channel of \<^verbatim>\<open>struct{}\<close> that is only ever closed: open or closed.\<close>

datatype chan = Open | Closed

text \<open>The builtin \<^verbatim>\<open>close\<close>: closing a closed channel panics.\<close>

fun close_chan :: "chan \<Rightarrow> panic + chan" where
  "close_chan Open = Inr Closed"
| "close_chan Closed = Inl CloseOfClosedChannel"

section \<open>outstandingMessageTracker (subscription.go, lines 229-284)\<close>

text \<open>
  The struct, field by field. \<open>active\<close> is the \<^verbatim>\<open>int64\<close> counter (two's
  complement, read with \<open>sint\<close>); \<open>closeOnce\<close> is the state of the
  \<^verbatim>\<open>sync.Once\<close> (whether \<^verbatim>\<open>Do\<close> has already run its function);
  \<open>done_chan\<close> is the channel \<^verbatim>\<open>done\<close>. The mutex \<^verbatim>\<open>mu\<close> has no
  field of its own: the two critical sections it guards are each one atomic step of
  the model.
\<close>

record outstandingMessageTracker =
  active :: "64 word"
  closeOnce :: bool
  done_chan :: chan
  armed :: bool

definition newOutstandingMessageTracker :: outstandingMessageTracker where
  "newOutstandingMessageTracker =
     \<lparr>active = 0, closeOnce = False, done_chan = Open, armed = False\<rparr>"

text \<open>\<^verbatim>\<open>Inc\<close>: \<^verbatim>\<open>atomic.AddInt64(&t.active, 1)\<close>, which wraps.\<close>

definition Inc :: "outstandingMessageTracker \<Rightarrow> outstandingMessageTracker" where
  "Inc t = t\<lparr>active := active t + 1\<rparr>"

text \<open>
  \<^verbatim>\<open>markDone\<close>: \<^verbatim>\<open>t.closeOnce.Do(func() { close(t.done) })\<close>. The Once runs the
  function the first time only.
\<close>

definition markDone :: "outstandingMessageTracker \<Rightarrow> panic + outstandingMessageTracker" where
  "markDone t =
     (if closeOnce t then Inr t
      else (case close_chan (done_chan t) of
              Inl p \<Rightarrow> Inl p
            | Inr c \<Rightarrow> Inr (t\<lparr>closeOnce := True, done_chan := c\<rparr>)))"

text \<open>
  \<^verbatim>\<open>Dec\<close> in its two atomic parts. \<open>Dec_add\<close> is the atomic add of \<open>-1\<close> with the
  check of the value it returns; the second component says whether that value was zero,
  that is, whether the call goes on to the critical section. \<open>Dec_locked\<close> is the
  critical section under \<^verbatim>\<open>t.mu\<close>. The panic is raised after the add has
  stored the negative value; it is taken to end the process, so no state follows it.
\<close>

definition Dec_add :: "outstandingMessageTracker \<Rightarrow> panic + (outstandingMessageTracker \<times> bool)" where
  "Dec_add t =
     (let val = active t - 1 in
      if sint val < 0 then Inl (PanicValue ''outstandingMessageTracker: active < 0'')
      else Inr (t\<lparr>active := val\<rparr>, val = 0))"

definition Dec_locked :: "outstandingMessageTracker \<Rightarrow> panic + outstandingMessageTracker" where
  "Dec_locked t = (if armed t then markDone t else Inr t)"

text \<open>A whole call of \<^verbatim>\<open>Dec\<close>, run without interruption.\<close>

definition Dec :: "outstandingMessageTracker \<Rightarrow> panic + outstandingMessageTracker" where
  "Dec t =
     (case Dec_add t of
        Inl p \<Rightarrow> Inl p
      | Inr (t', zero) \<Rightarrow> if zero then Dec_locked t' else Inr t')"

text \<open>
  \<^verbatim>\<open>ArmForShutdown\<close>, all of it under \<^verbatim>\<open>t.mu\<close>: latch \<open>armed\<close>, load the
  counter, and mark done when it is zero.
\<close>

definition ArmForShutdown :: "outstandingMessageTracker \<Rightarrow> panic + outstandingMessageTracker" where
  "ArmForShutdown t =
     (let t' = t\<lparr>armed := True\<rparr> in
      if active t' = 0 then markDone t' else Inr t')"

text \<open>\<^verbatim>\<open>Done\<close> returns the channel.\<close>

definition Done :: "outstandingMessageTracker \<Rightarrow> chan" where
  "Done t = done_chan t"

subsection \<open>Sequences of whole calls\<close>

datatype tracker_call = OpInc | OpDec | OpArm

fun apply_op :: "tracker_call \<Rightarrow> outstandingMessageTracker \<Rightarrow> panic + outstandingMessageTracker" where
  "apply_op OpInc t = Inr (Inc t)"
| "apply_op OpDec t = Dec t"
| "apply_op OpArm t = ArmForShutdown t"

text \<open>The calls one after the other; the first panic ends the run.\<close>

fun run_ops :: "tracker_call list \<Rightarrow> outstandingMessageTracker \<Rightarrow> panic + outstandingMessageTracker" where
  "run_ops [] t = Inr t"
| "run_ops (x # xs) t = (case apply_op x t of Inl p \<Rightarrow> Inl p | Inr t' \<Rightarrow> run_ops xs t')"

text \<open>How many of the calls closed the channel (found it open and left it closed).\<close>

fun closes :: "tracker_call list \<Rightarrow> outstandingMessageTracker \<Rightarrow> nat" where
  "closes [] t = 0"
| "closes (x # xs) t =
     (case apply_op x t of
        Inl p \<Rightarrow> 0
      | Inr t' \<Rightarrow> (if done_chan t = Open \<and> done_chan t' = Closed then 1 else 0) + closes xs t')"

subsection \<open>Interleaved executions\<close>

text \<open>
  Concurrent calls interleave at their atomic parts: \<open>SInc\<close> (an \<^verbatim>\<open>Inc\<close>),
  \<open>SDecAdd\<close> (the atomic add of a \<^verbatim>\<open>Dec\<close>), \<open>SDecLocked\<close> (the critical section
  of a \<^verbatim>\<open>Dec\<close> whose add returned zero) and \<open>SArm\<close> (an
  \<^verbatim>\<open>ArmForShutdown\<close>). \<open>waiting\<close> counts the \<^verbatim>\<open>Dec\<close> calls that have seen
  zero and have not yet entered their critical section; \<open>SDecLocked\<close> with nobody
  waiting has no call to run and leaves the state as it is. Each critical section is
  one step: \<^verbatim>\<open>armed\<close>, the Once and the channel are touched under \<^verbatim>\<open>t.mu\<close>
  only, and the one access to the counter inside a critical section is the atomic load
  in \<^verbatim>\<open>ArmForShutdown\<close>.
\<close>

datatype step = SInc | SDecAdd | SDecLocked | SArm

record sys =
  trk :: outstandingMessageTracker
  waiting :: nat

definition init_sys :: sys where
  "init_sys = \<lparr>trk = newOutstandingMessageTracker, waiting = 0\<rparr>"

fun exec_step :: "step \<Rightarrow> sys \<Rightarrow> panic + sys" where
  "exec_step SInc s = Inr (s\<lparr>trk := Inc (trk s)\<rparr>)"
| "exec_step SDecAdd s =
     (case Dec_add (trk s) of
        Inl p \<Rightarrow> Inl p
      | Inr (t', zero) \<Rightarrow> Inr \<lparr>trk = t', waiting = (if zero then waiting s + 1 else waiting s)\<rparr>)"
| "exec_step SDecLocked s =
     (if waiting s = 0 then Inr s
      else (case Dec_locked (trk s) of
              Inl p \<Rightarrow> Inl p
            | Inr t' \<Rightarrow> Inr \<lparr>trk = t', waiting = waiting s - 1\<rparr>))"
| "exec_step SArm s =
     (case ArmForShutdown (trk s) of
        Inl p \<Rightarrow> Inl p
      | Inr t' \<Rightarrow> Inr (s\<lparr>trk := t'\<rparr>))"

fun exec :: "step list \<Rightarrow> sys \<Rightarrow> panic + sys" where
  "exec [] s = Inr s"
| "exec (x # xs) s = (case exec_step x s of Inl p \<Rightarrow> Inl p | Inr s' \<Rightarrow> exec xs s')"

text \<open>How many steps of the schedule closed the channel.\<close>

fun exec_closes :: "step list \<Rightarrow> sys \<Rightarrow> nat" where
  "exec_closes [] s = 0"
| "exec_closes (x # xs) s =
     (case exec_step x s of
        Inl p \<Rightarrow> 0
      | Inr s' \<Rightarrow> (if done_chan (trk s) = Open \<and> done_chan (trk s') = Closed then 1 else 0)
                    + exec_closes xs s')"

text \<open>
  The Once and the channel agree: the Once has run exactly when the channel is closed
  (nothing but \<^verbatim>\<open>markDone\<close> touches either).
\<close>

definition tracker_ok :: "outstandingMessageTracker \<Rightarrow> bool" where
  "tracker_ok t = (closeOnce t = (done_chan t = Closed))"

text \<open>
  What holds of the tracker in every state an execution reaches: the Once and the
  channel agree, and the channel is closed only after arming.
\<close>

definition latch_ok :: "outstandingMessageTracker \<Rightarrow> bool" where
  "latch_ok t = (tracker_ok t \<and> (done_chan t = Closed \<longrightarrow> armed t))"

section \<open>Manager (subscription.go, lines 23-62)\<close>

text \<open>
  The packages \<^verbatim>\<open>config\<close>, \<^verbatim>\<open>errs\<close> and \<^verbatim>\<open>utils\<close> are imported by
  subscription.go and are not among the sources; their types are given here with the
  fields subscription.go reads. A Go map is a partial function, a pointer that may be
  nil an \<open>option\<close>. The two subscription maps hold pointers
  (\<^verbatim>\<open>getSubscriptionConfig\<close> returns their entries as
  \<^verbatim>\<open>*config.PubsubSubscription\<close> and \<^verbatim>\<open>*config.StaticPubsubSubscription\<close>),
  and so, like them, does the map of static topics: a key can be present with a nil
  entry. \<^verbatim>\<open>Static\<close> is read through \<^verbatim>\<open>mgr.cfg\<close> only and is taken as a
  field that is always there.
\<close>

record PubsubSubscription =
  sub_EncoreName :: string

record StaticPubsubSubscription =
  Service :: string
  TraceIdx :: int

record StaticPubsubTopic =
  static_Subscriptions :: "string \<rightharpoonup> StaticPubsubSubscription option"

record PubsubTopic =
  EncoreName :: string
  Subscriptions :: "string \<rightharpoonup> PubsubSubscription option"

record StaticConfig =
  Testing :: bool
  TestService :: string
  PubsubTopics :: "string \<rightharpoonup> StaticPubsubTopic option"

record Config =
  Static :: StaticConfig

text \<open>
  The \<^verbatim>\<open>Manager\<close> struct. \<open>ctx_done\<close> stands for the pair \<^verbatim>\<open>ctx\<close> and
  \<^verbatim>\<open>cancelCtx\<close>: whether the shared context has been cancelled. \<open>cfg\<close> is the
  pointer \<^verbatim>\<open>*config.Config\<close> and \<open>outstanding\<close> the pointer to the tracker,
  each \<open>None\<close> when nil. The request tracker, the test support,
  the logger and the two backend managers are collaborators the functions below only
  pass on; they have no field here.
\<close>

record Manager =
  ctx_done :: bool
  cfg :: "Config option"
  publishCounter :: "64 word"
  outstanding :: "outstandingMessageTracker option"

text \<open>
  \<^verbatim>\<open>NewManager\<close>: the composite literal sets \<^verbatim>\<open>ctx\<close>, \<^verbatim>\<open>cancelCtx\<close>,
  \<^verbatim>\<open>cfg\<close>, \<^verbatim>\<open>rt\<close>, \<^verbatim>\<open>ts\<close>, \<^verbatim>\<open>rootLogger\<close>, \<^verbatim>\<open>gcp\<close> and
  \<^verbatim>\<open>nsq\<close>. The fields it does not name, \<^verbatim>\<open>publishCounter\<close> and
  \<^verbatim>\<open>outstanding\<close>, keep their zero values: \<open>0\<close> and the nil pointer. The
  configuration pointer is stored as it is given, nil or not.
\<close>

definition NewManager :: "Config option \<Rightarrow> Manager" where
  "NewManager c = \<lparr>ctx_done = False, cfg = c, publishCounter = 0, outstanding = None\<rparr>"

text \<open>
  \<^verbatim>\<open>Shutdown\<close>: cancel the context, arm the tracker, then select on the two
  channels. \<open>force_done\<close> says whether the caller's context is done. The call panics,
  returns from the select, or waits in it. A method called on the nil tracker
  dereferences it at its first statement (\<^verbatim>\<open>t.mu.Lock()\<close>).
\<close>

datatype shutdown_result =
    ShutdownPanics panic Manager
  | ShutdownReturns Manager
  | ShutdownWaits Manager

definition Shutdown :: "Manager \<Rightarrow> bool \<Rightarrow> shutdown_result" where
  "Shutdown m force_done =
     (let m1 = m\<lparr>ctx_done := True\<rparr> in
      case outstanding m1 of
        None \<Rightarrow> ShutdownPanics NilDereference m1
      | Some t \<Rightarrow>
          (case ArmForShutdown t of
             Inl p \<Rightarrow> ShutdownPanics p m1
           | Inr t' \<Rightarrow>
               (let m2 = m1\<lparr>outstanding := Some t'\<rparr> in
                if Done t' = Closed \<or> force_done then ShutdownReturns m2
                else ShutdownWaits m2)))"

section \<open>NewSubscription (subscription.go, lines 104-227)\<close>

text \<open>\<^verbatim>\<open>time.Duration\<close> is an \<^verbatim>\<open>int64\<close> count of nanoseconds.\<close>

type_synonym Duration = "64 word"

definition Second :: Duration where
  "Second = 1000000000"

definition Minute :: Duration where
  "Minute = 60 * Second"

text \<open>\<^verbatim>\<open>MaxRetries\<close> is a Go \<^verbatim>\<open>int\<close>, 64 bits wide on the runtime's platforms.\<close>

record RetryPolicy =
  MinBackoff :: Duration
  MaxBackoff :: Duration
  MaxRetries :: "64 word"

text \<open>
  Modelled from the spec: \<^verbatim>\<open>utils.WithDefaultValue\<close> is not among the sources.
  The spec has the registrar fill in a default bound "when unset"; an unset Go value is
  the zero value of its type.
\<close>

definition WithDefaultValue :: "'a::zero \<Rightarrow> 'a \<Rightarrow> 'a" where
  "WithDefaultValue v d = (if v = 0 then d else v)"

text \<open>
  An error value: one built by the \<^verbatim>\<open>errs\<close> builder (code, message, cause) or
  any other error, which the pipeline only passes on.
\<close>

datatype ErrCode = OK | Unknown | Internal | OtherCode nat

datatype goerror = ErrsError ErrCode string "goerror option" | OtherError string

text \<open>
  What a call of the user's handler does: it returns an error or nil, or it panics.
  \<open>HandlerPanics\<close> carries what \<^verbatim>\<open>recover()\<close> then returns: the payload
  (rendered with \<^verbatim>\<open>%s\<close>), or \<open>None\<close> when it returns nil, as it does for
  \<^verbatim>\<open>panic(nil)\<close> before Go 1.21.
\<close>

datatype handler_outcome = HandlerReturns "goerror option" | HandlerPanics "string option"

record 'T SubscriptionConfig =
  Handler :: "'T \<Rightarrow> handler_outcome"
  RetryPolicy :: "RetryPolicy option"

text \<open>
  The \<^verbatim>\<open>Topic\<close> struct (declared outside subscription.go), with the three
  fields \<^verbatim>\<open>NewSubscription\<close> checks; \<open>'b\<close> is the backend's topic.
\<close>

record 'b Topic =
  topicCfg :: "PubsubTopic option"
  topic :: "'b option"
  mgr :: "Manager option"

text \<open>
  Registration ends the process in two ways: a panic, or the logger's
  \<^verbatim>\<open>Fatal()\<close>, which writes the message and exits.
\<close>

datatype fatal = Panics panic | LogFatal string

text \<open>
  \<^verbatim>\<open>getSubscriptionConfig\<close>, called with the manager and the topic configuration
  that \<^verbatim>\<open>NewSubscription\<close> has found non-nil. Its first statement reads
  \<^verbatim>\<open>t.mgr.cfg.Static.Testing\<close> and dereferences the configuration pointer. For a
  topic the static configuration does not hold, or holds as nil, reading
  \<^verbatim>\<open>.Subscriptions\<close> dereferences nil. The two entries found are returned as
  they are, nil or not.
\<close>

definition unregistered_msg :: "string \<Rightarrow> string \<Rightarrow> string" where
  "unregistered_msg t name =
     ''unregistered/unknown subscription on topic '' @ t @ '': '' @ name"

definition getSubscriptionConfig ::
  "Manager \<Rightarrow> PubsubTopic \<Rightarrow> string \<Rightarrow>
   fatal + (PubsubSubscription option \<times> StaticPubsubSubscription option)" where
  "getSubscriptionConfig m tc name =
     (case cfg m of
        None \<Rightarrow> Inl (Panics NilDereference)
      | Some c \<Rightarrow>
     (if Testing (Static c)
      then Inr (Some \<lparr>sub_EncoreName = name\<rparr>,
                Some \<lparr>Service = TestService (Static c), TraceIdx = 0\<rparr>)
      else (case Subscriptions tc name of
              None \<Rightarrow> Inl (LogFatal (unregistered_msg (EncoreName tc) name))
            | Some subscription \<Rightarrow>
                (case PubsubTopics (Static c) (EncoreName tc) of
                   None \<Rightarrow> Inl (Panics NilDereference)
                 | Some None \<Rightarrow> Inl (Panics NilDereference)
                 | Some (Some st) \<Rightarrow>
                     (case static_Subscriptions st name of
                        None \<Rightarrow> Inl (LogFatal (unregistered_msg (EncoreName tc) name))
                      | Some staticCfg \<Rightarrow> Inr (subscription, staticCfg))))))"

text \<open>
  What a successful \<^verbatim>\<open>NewSubscription\<close> leaves behind: the arguments it gave
  the backend's \<^verbatim>\<open>Subscribe\<close> (retry policy, subscription, and the handler and
  static configuration its callback closes over) and the manager of the
  \<^verbatim>\<open>Subscription\<close> it returns.
\<close>

record 'T Subscription =
  sub_mgr :: Manager
  sub_policy :: RetryPolicy
  sub_subscription :: "PubsubSubscription option"
  sub_static :: StaticPubsubSubscription
  sub_handler :: "'T \<Rightarrow> handler_outcome"

text \<open>
  \<^verbatim>\<open>NewSubscription\<close>, in the order of the source: the nil checks on the topic,
  the default policy, the two sign checks, the two default bounds, the configuration
  lookup, and the logger set up with \<^verbatim>\<open>staticCfg.Service\<close>, which dereferences
  the static entry. The topic argument is a pointer. The backend's
  \<^verbatim>\<open>Subscribe\<close>, the logger and \<^verbatim>\<open>trace.Enabled\<close> are collaborators, taken
  to return.
\<close>

definition NewSubscription ::
  "'b Topic option \<Rightarrow> string \<Rightarrow> 'T SubscriptionConfig \<Rightarrow> fatal + 'T Subscription" where
  "NewSubscription tp name subscriptionCfg =
     (case tp of
        None \<Rightarrow> Inl (Panics NilDereference)
      | Some t \<Rightarrow>
     (case (topicCfg t, topic t, mgr t) of
        (Some tc, Some b, Some m) \<Rightarrow>
          (let rp = (case RetryPolicy subscriptionCfg of
                       None \<Rightarrow> \<lparr>MinBackoff = 0, MaxBackoff = 0, MaxRetries = 100\<rparr>
                     | Some p \<Rightarrow> p)
           in if sint (MinBackoff rp) < 0
              then Inl (Panics (PanicValue ''MinRetryDelay cannot be negative''))
              else if sint (MaxBackoff rp) < 0
              then Inl (Panics (PanicValue ''MaxRetryDelay cannot be negative''))
              else (let rp' = rp\<lparr>MinBackoff := WithDefaultValue (MinBackoff rp) (10 * Second),
                                  MaxBackoff := WithDefaultValue (MaxBackoff rp) (10 * Minute)\<rparr>
                    in case getSubscriptionConfig m tc name of
                         Inl f \<Rightarrow> Inl f
                       | Inr (subscription, None) \<Rightarrow> Inl (Panics NilDereference)
                       | Inr (subscription, Some staticCfg) \<Rightarrow>
                           Inr \<lparr>sub_mgr = m, sub_policy = rp', sub_subscription = subscription,
                                sub_static = staticCfg, sub_handler = Handler subscriptionCfg\<rparr>))
      | _ \<Rightarrow> Inl (Panics (PanicValue ''pubsub topic was not created using pubsub.NewTopic''))))"







section \<open>The delivery callback (subscription.go, lines 126-197)\<close>

text \<open>
  \<^verbatim>\<open>panicCatchWrapper\<close>: the deferred function recovers a panic of the handler
  and, when \<^verbatim>\<open>recover()\<close> returned a value that is not nil, sets the named result
  to an internal error whose message holds the payload. When it returned nil the named
  result keeps its zero value, nil.
\<close>

definition panicCatchWrapper :: "('T \<Rightarrow> handler_outcome) \<Rightarrow> 'T \<Rightarrow> goerror option" where
  "panicCatchWrapper handler msg =
     (case handler msg of
        HandlerReturns err \<Rightarrow> err
      | HandlerPanics None \<Rightarrow> None
      | HandlerPanics (Some payload) \<Rightarrow>
          Some (ErrsError Internal (''subscriber panicked: '' @ payload) None))"

text \<open>
  The calls the callback makes on its collaborators, in order: the request tracker,
  the trace, the logger and the handler.
\<close>

datatype event =
    BeginOperation
  | FinishOperation
  | LogUnmarshalFailure string int goerror
  | BeginRequest
  | TraceBeginRequest
  | HandlerCalled
  | TraceFinishRequest "goerror option"
  | FinishRequest

text \<open>
  One delivery ends by returning an error or nil to the backend, with the manager as
  the callback leaves it, or by panicking into the backend.
\<close>

datatype delivery =
    Returned "goerror option" Manager "event list"
  | Panicked panic "event list"

text \<open>
  The callback given to \<^verbatim>\<open>Subscribe\<close>, run without interruption.
  \<open>unmarshal\<close> is \<^verbatim>\<open>utils.UnmarshalMessage\<close> (not among the sources), and
  \<open>traced\<close> says whether \<^verbatim>\<open>curr.Trace\<close> is non-nil. The first statement calls
  \<^verbatim>\<open>Inc\<close> on \<^verbatim>\<open>mgr.outstanding\<close>, which dereferences the pointer
  (\<^verbatim>\<open>&t.active\<close>) before any \<^verbatim>\<open>defer\<close> is registered. The next reads
  \<^verbatim>\<open>mgr.cfg.Static.Testing\<close>: on a nil configuration it panics with
  \<^verbatim>\<open>Dec\<close> already deferred, so \<^verbatim>\<open>Dec\<close> runs and the panic goes on into the
  backend. The deferred calls run last in, first out: \<^verbatim>\<open>FinishOperation\<close>, then
  \<^verbatim>\<open>Dec\<close>.
\<close>

definition callback ::
  "Manager \<Rightarrow> bool \<Rightarrow> ((string \<rightharpoonup> string) \<Rightarrow> 8 word list \<Rightarrow> goerror + 'T) \<Rightarrow>
   ('T \<Rightarrow> handler_outcome) \<Rightarrow> string \<Rightarrow> int \<Rightarrow> (string \<rightharpoonup> string) \<Rightarrow> 8 word list \<Rightarrow> delivery" where
  "callback m traced unmarshal handler msgID deliveryAttempt attrs data =
     (case outstanding m of
        None \<Rightarrow> Panicked NilDereference []
      | Some t0 \<Rightarrow>
          (case cfg m of
             None \<Rightarrow>
               (case Dec (Inc t0) of
                  Inl p \<Rightarrow> Panicked p []
                | Inr t2 \<Rightarrow> Panicked NilDereference [])
           | Some c \<Rightarrow>
          (let t1 = Inc t0;
               testing = Testing (Static c);
               pre = (if \<not> testing then [BeginOperation] else []);
               (err, evs) =
                 (case unmarshal attrs data of
                    Inl e \<Rightarrow>
                      (Some (ErrsError Internal ''failed to unmarshal message'' (Some e)),
                       [LogUnmarshalFailure msgID deliveryAttempt e])
                  | Inr msg \<Rightarrow>
                      (let r = panicCatchWrapper handler msg in
                       (r, [BeginRequest] @ (if traced then [TraceBeginRequest] else [])
                           @ [HandlerCalled]
                           @ (if traced then [TraceFinishRequest r] else [])
                           @ [FinishRequest])));
               post = (if \<not> testing then [FinishOperation] else [])
           in case Dec t1 of
                Inl p \<Rightarrow> Panicked p (pre @ evs @ post)
              | Inr t2 \<Rightarrow> Returned err (m\<lparr>outstanding := Some t2\<rparr>) (pre @ evs @ post))))"

text \<open>A delivery to a registered subscription runs the callback on its manager.\<close>

definition deliver ::
  "'T Subscription \<Rightarrow> bool \<Rightarrow> ((string \<rightharpoonup> string) \<Rightarrow> 8 word list \<Rightarrow> goerror + 'T) \<Rightarrow>
   string \<Rightarrow> int \<Rightarrow> (string \<rightharpoonup> string) \<Rightarrow> 8 word list \<Rightarrow> delivery" where
  "deliver sub traced unmarshal msgID deliveryAttempt attrs data =
     callback (sub_mgr sub) traced unmarshal (sub_handler sub) msgID deliveryAttempt attrs data"

section \<open>Backoff policy\<close>

text \<open>
  Modelled from the spec: \<^verbatim>\<open>nextDelay\<close> is not among the sources (the backends
  that apply the retry policy are outside subscription.go). The spec gives it as
  \<^verbatim>\<open>delay = clamp(minBackoff * 2^(attempt-1), minBackoff, maxBackoff)\<close>, for an
  attempt counted from 1; durations are whole nanoseconds.
\<close>

definition clamp :: "int \<Rightarrow> int \<Rightarrow> int \<Rightarrow> int" where
  "clamp x lo hi = (if x < lo then lo else if hi < x then hi else x)"

definition nextDelay :: "int \<Rightarrow> int \<Rightarrow> nat \<Rightarrow> int" where
  "nextDelay minBackoff maxBackoff attempt =
     clamp (minBackoff * 2 ^ (attempt - 1)) minBackoff maxBackoff"

section \<open>Example inputs\<close>

text \<open>
  A topic \<open>orders\<close> with one declared subscription \<open>mailer\<close>, on a manager made by
  \<^verbatim>\<open>NewManager\<close>; the flag is the configuration's test mode.
\<close>

definition example_topic_cfg :: PubsubTopic where
  "example_topic_cfg =
     \<lparr>EncoreName = ''orders'',
      Subscriptions = [''mailer'' \<mapsto> Some \<lparr>sub_EncoreName = ''mailer''\<rparr>]\<rparr>"

definition example_config :: "bool \<Rightarrow> Config" where
  "example_config testing =
     \<lparr>Static = \<lparr>Testing = testing, TestService = ''svc'',
                 PubsubTopics = [''orders'' \<mapsto>
                   Some \<lparr>static_Subscriptions =
                      [''mailer'' \<mapsto> Some \<lparr>Service = ''mail'', TraceIdx = 7\<rparr>]\<rparr>]\<rparr>\<rparr>"

definition example_topic :: "bool \<Rightarrow> unit Topic option" where
  "example_topic testing =
     Some \<lparr>topicCfg = Some example_topic_cfg, topic = Some (),
           mgr = Some (NewManager (Some (example_config testing)))\<rparr>"




text \<open>A handler that panics, one that succeeds, and a decoder of a one-byte payload.\<close>

definition panicking_handler :: "8 word \<Rightarrow> handler_outcome" where
  "panicking_handler msg = HandlerPanics (Some ''boom'')"

definition quiet_handler :: "8 word \<Rightarrow> handler_outcome" where
  "quiet_handler msg = HandlerReturns None"

definition example_unmarshal :: "(string \<rightharpoonup> string) \<Rightarrow> 8 word list \<Rightarrow> goerror + 8 word" where
  "example_unmarshal attrs data =
     (case data of [b] \<Rightarrow> Inr b | _ \<Rightarrow> Inl (OtherError ''unexpected payload length''))"

definition example_subscription_cfg ::
  "(8 word \<Rightarrow> handler_outcome) \<Rightarrow> RetryPolicy option \<Rightarrow> 8 word SubscriptionConfig" where
  "example_subscription_cfg h rp = \<lparr>Handler = h, RetryPolicy = rp\<rparr>"

text \<open>Registering, then delivering one message to what was registered.\<close>

definition register_then_deliver ::
  "'b Topic option \<Rightarrow> string \<Rightarrow> 'T SubscriptionConfig \<Rightarrow> bool \<Rightarrow>
   ((string \<rightharpoonup> string) \<Rightarrow> 8 word list \<Rightarrow> goerror + 'T) \<Rightarrow>
   string \<Rightarrow> int \<Rightarrow> (string \<rightharpoonup> string) \<Rightarrow> 8 word list \<Rightarrow> fatal + delivery" where
  "register_then_deliver tp name subscriptionCfg traced unmarshal msgID deliveryAttempt attrs data =
     (case NewSubscription tp name subscriptionCfg of
        Inl f \<Rightarrow> Inl f
      | Inr sub \<Rightarrow> Inr (deliver sub traced unmarshal msgID deliveryAttempt attrs data))"

text \<open>The retry policy a registration ends with.\<close>

definition resulting_policy ::
  "'b Topic option \<Rightarrow> string \<Rightarrow> 'T SubscriptionConfig \<Rightarrow> fatal + RetryPolicy" where
  "resulting_policy tp name subscriptionCfg =
     (case NewSubscription tp name subscriptionCfg of
        Inl f \<Rightarrow> Inl f
      | Inr sub \<Rightarrow> Inr (sub_policy sub))"

section \<open>The tracker: helper lemmas\<close>

lemma sint_inc64: "sint (w :: 64 word) < 2 ^ 63 - 1 \<Longrightarrow> sint (w + 1) = sint w + 1"
proof -
  assume a: "sint w < 2 ^ 63 - 1"
  have lo: "- (2 ^ 63) \<le> sint w" using sint_ge [of w] by simp
  have "sint (w + 1) = signed_take_bit 63 (sint w + 1)"
    by (simp add: sint_word_ariths)
  also have "\<dots> = sint w + 1"
    by (rule signed_take_bit_int_eq_self) (use a lo in simp_all)
  finally show ?thesis .
qed

lemma sint_dec64: "- (2 ^ 63) < sint (w :: 64 word) \<Longrightarrow> sint (w - 1) = sint w - 1"
proof -
  assume a: "- (2 ^ 63) < sint w"
  have hi: "sint w < 2 ^ 63" using sint_lt [of w] by simp
  have "sint (w - 1) = signed_take_bit 63 (sint w - 1)"
    by (simp add: sint_word_ariths)
  also have "\<dots> = sint w - 1"
    by (rule signed_take_bit_int_eq_self) (use a hi in simp_all)
  finally show ?thesis .
qed

lemma markDone_ok:
  "tracker_ok t \<Longrightarrow> markDone t = Inr (t\<lparr>closeOnce := True, done_chan := Closed\<rparr>)"
  by (cases "done_chan t") (auto simp: tracker_ok_def markDone_def)

lemma markDone_cases:
  "markDone t = Inr t' \<Longrightarrow> t' = t \<or> t' = t\<lparr>closeOnce := True, done_chan := Closed\<rparr>"
  by (cases "done_chan t") (auto simp: markDone_def split: if_splits)

lemma markDone_panic: "markDone t = Inl p \<Longrightarrow> p = CloseOfClosedChannel \<and> \<not> tracker_ok t"
  by (cases "done_chan t") (auto simp: markDone_def tracker_ok_def split: if_splits)

lemma latch_ok_new: "latch_ok newOutstandingMessageTracker"
  by (simp add: latch_ok_def tracker_ok_def newOutstandingMessageTracker_def)

lemma Inc_latch: "latch_ok t \<Longrightarrow> latch_ok (Inc t)"
  by (simp add: latch_ok_def tracker_ok_def Inc_def)

lemma Dec_add_latch: "latch_ok t \<Longrightarrow> Dec_add t = Inr (t', z) \<Longrightarrow> latch_ok t'"
  by (auto simp: latch_ok_def tracker_ok_def Dec_add_def Let_def split: if_splits)

lemma Dec_add_panic: "Dec_add t = Inl p \<Longrightarrow> p \<noteq> CloseOfClosedChannel"
  by (auto simp: Dec_add_def Let_def split: if_splits)

lemma Dec_locked_latch: "latch_ok t \<Longrightarrow> \<exists>t'. Dec_locked t = Inr t' \<and> latch_ok t' \<and> active t' = active t
   \<and> armed t' = armed t \<and> (done_chan t = Closed \<longrightarrow> done_chan t' = Closed)
   \<and> (armed t \<longrightarrow> done_chan t' = Closed)"
  by (auto simp: latch_ok_def Dec_locked_def markDone_ok) (auto simp: tracker_ok_def)

lemma Arm_latch: "latch_ok t \<Longrightarrow> \<exists>t'. ArmForShutdown t = Inr t' \<and> latch_ok t' \<and> active t' = active t
   \<and> armed t' \<and> (done_chan t = Closed \<longrightarrow> done_chan t' = Closed)
   \<and> (active t = 0 \<longrightarrow> done_chan t' = Closed)"
proof -
  assume a: "latch_ok t"
  then have "tracker_ok (t\<lparr>armed := True\<rparr>)" by (simp add: latch_ok_def tracker_ok_def)
  from markDone_ok [OF this] a show ?thesis
    by (auto simp: ArmForShutdown_def Let_def latch_ok_def tracker_ok_def)
qed

lemma exec_step_latch:
  "latch_ok (trk s) \<Longrightarrow> exec_step x s = Inr s' \<Longrightarrow>
     latch_ok (trk s') \<and> (done_chan (trk s) = Closed \<longrightarrow> done_chan (trk s') = Closed)"
proof (cases x)
  case SInc
  assume "latch_ok (trk s)" "exec_step x s = Inr s'"
  with SInc show ?thesis using Inc_latch [of "trk s"] by (auto simp: Inc_def)
next
  case SDecAdd
  assume "latch_ok (trk s)" "exec_step x s = Inr s'"
  with SDecAdd show ?thesis
    by (auto simp: Dec_add_def Let_def latch_ok_def tracker_ok_def split: if_splits)
next
  case SDecLocked
  assume a: "latch_ok (trk s)" "exec_step x s = Inr s'"
  with SDecLocked Dec_locked_latch [OF a(1)] show ?thesis
    by (auto split: if_splits)
next
  case SArm
  assume a: "latch_ok (trk s)" "exec_step x s = Inr s'"
  with SArm Arm_latch [OF a(1)] show ?thesis
    by auto
qed

lemma exec_step_panic:
  "latch_ok (trk s) \<Longrightarrow> exec_step x s = Inl p \<Longrightarrow> p \<noteq> CloseOfClosedChannel"
proof (cases x)
  case SInc
  assume "latch_ok (trk s)" "exec_step x s = Inl p"
  with SInc show ?thesis by simp
next
  case SDecAdd
  assume "latch_ok (trk s)" "exec_step x s = Inl p"
  with SDecAdd show ?thesis
    by (auto simp: Dec_add_def Let_def split: if_splits)
next
  case SDecLocked
  assume a: "latch_ok (trk s)" "exec_step x s = Inl p"
  with SDecLocked Dec_locked_latch [OF a(1)] show ?thesis
    by (auto split: if_splits)
next
  case SArm
  assume a: "latch_ok (trk s)" "exec_step x s = Inl p"
  with SArm Arm_latch [OF a(1)] show ?thesis
    by auto
qed

lemma exec_latch:
  "latch_ok (trk s) \<Longrightarrow> exec sched s = Inr s' \<Longrightarrow>
     latch_ok (trk s') \<and> (done_chan (trk s) = Closed \<longrightarrow> done_chan (trk s') = Closed)"
proof (induction sched arbitrary: s)
  case Nil
  then show ?case by simp
next
  case (Cons x xs)
  from Cons.prems(2) obtain s1 where s1: "exec_step x s = Inr s1" "exec xs s1 = Inr s'"
    by (auto split: sum.splits)
  from exec_step_latch [OF Cons.prems(1) s1(1)] Cons.IH [OF _ s1(2)] show ?case
    by blast
qed

lemma exec_panic:
  "latch_ok (trk s) \<Longrightarrow> exec sched s = Inl p \<Longrightarrow> p \<noteq> CloseOfClosedChannel"
proof (induction sched arbitrary: s)
  case Nil
  then show ?case by simp
next
  case (Cons x xs)
  show ?case
  proof (cases "exec_step x s")
    case (Inl q)
    with Cons.prems exec_step_panic [OF Cons.prems(1) Inl] show ?thesis by simp
  next
    case (Inr s1)
    with Cons.prems have "exec xs s1 = Inl p" by simp
    from Cons.IH [OF _ this] exec_step_latch [OF Cons.prems(1) Inr] show ?thesis by blast
  qed
qed

lemma exec_closes_le:
  "latch_ok (trk s) \<Longrightarrow> exec_closes sched s \<le> (if done_chan (trk s) = Open then 1 else 0)"
proof (induction sched arbitrary: s)
  case Nil
  then show ?case by simp
next
  case (Cons x xs)
  show ?case
  proof (cases "exec_step x s")
    case (Inl q)
    then show ?thesis by simp
  next
    case (Inr s1)
    from exec_step_latch [OF Cons.prems Inr]
    have l: "latch_ok (trk s1)" and c: "done_chan (trk s) = Closed \<longrightarrow> done_chan (trk s1) = Closed"
      by blast+
    from Cons.IH [OF l] c Inr show ?thesis
      by (cases "done_chan (trk s)"; cases "done_chan (trk s1)") auto
  qed
qed

lemma exec_snoc:
  "exec (xs @ [x]) s = (case exec xs s of Inl p \<Rightarrow> Inl p | Inr s' \<Rightarrow> exec_step x s')"
  by (induction xs arbitrary: s) (auto split: sum.splits)

lemma exec_step_active:
  assumes "exec_step x s = Inr s'" and "0 \<le> sint (active (trk s))"
    and "sint (active (trk s)) < 2 ^ 63 - 1"
  shows "0 \<le> sint (active (trk s')) \<and> sint (active (trk s')) \<le> sint (active (trk s)) + 1"
proof (cases x)
  case SInc
  with assms sint_inc64 [of "active (trk s)"] show ?thesis by (auto simp: Inc_def)
next
  case SDecAdd
  with assms sint_dec64 [of "active (trk s)"] show ?thesis
    by (auto simp: Dec_add_def Let_def split: if_splits)
next
  case SDecLocked
  with assms show ?thesis
    by (auto simp: Dec_locked_def split: if_splits sum.splits dest!: markDone_cases)
next
  case SArm
  with assms show ?thesis
    by (auto simp: ArmForShutdown_def Let_def split: if_splits sum.splits dest!: markDone_cases)
qed

lemma exec_active_bounds:
  "length sched < 2 ^ 63 \<Longrightarrow> exec sched init_sys = Inr s \<Longrightarrow>
     0 \<le> sint (active (trk s)) \<and> sint (active (trk s)) \<le> int (length sched)"
proof (induction sched arbitrary: s rule: rev_induct)
  case Nil
  then show ?case by (auto simp: init_sys_def newOutstandingMessageTracker_def)
next
  case (snoc x xs)
  from snoc.prems(2) obtain s0 where s0: "exec xs init_sys = Inr s0" "exec_step x s0 = Inr s"
    by (auto simp: exec_snoc split: sum.splits)
  from snoc.prems(1) have len: "length xs < 2 ^ 63" "int (length xs) < 2 ^ 63 - 1"
    by simp_all
  from snoc.IH [OF len(1) s0(1)] have b: "0 \<le> sint (active (trk s0))"
    "sint (active (trk s0)) \<le> int (length xs)" by simp_all
  from exec_step_active [OF s0(2) b(1)] b(2) len(2) show ?case by simp
qed

lemma run_ops_snoc:
  "run_ops (xs @ [x]) t = (case run_ops xs t of Inl p \<Rightarrow> Inl p | Inr t' \<Rightarrow> apply_op x t')"
  by (induction xs arbitrary: t) (auto split: sum.splits)

lemma Dec_latch:
  assumes "latch_ok t" and "Dec t = Inr t'"
  shows "latch_ok t' \<and> active t' = active t - 1 \<and> armed t' = armed t
    \<and> (done_chan t = Closed \<longrightarrow> done_chan t' = Closed)
    \<and> (armed t \<and> active t' = 0 \<longrightarrow> done_chan t' = Closed)"
proof -
  from assms(2) obtain t1 z where a: "Dec_add t = Inr (t1, z)"
    and b: "t' = t1 \<and> \<not> z \<or> z \<and> Dec_locked t1 = Inr t'"
    by (auto simp: Dec_def split: sum.splits if_splits)
  from a have t1: "t1 = t\<lparr>active := active t - 1\<rparr>" "z = (active t - 1 = 0)"
    by (auto simp: Dec_add_def Let_def split: if_splits)
  from Dec_add_latch [OF assms(1) a] have l1: "latch_ok t1" .
  from b show ?thesis
  proof
    assume "t' = t1 \<and> \<not> z"
    with l1 t1 assms(1) show ?thesis by (auto simp: latch_ok_def)
  next
    assume "z \<and> Dec_locked t1 = Inr t'"
    with Dec_locked_latch [OF l1] t1 show ?thesis by auto
  qed
qed

lemma apply_op_latch:
  assumes "latch_ok t" and "apply_op x t = Inr t'"
  shows "latch_ok t' \<and> (done_chan t = Closed \<longrightarrow> done_chan t' = Closed)"
proof (cases x)
  case OpInc
  with assms Inc_latch [OF assms(1)] show ?thesis by (auto simp: Inc_def)
next
  case OpDec
  with assms Dec_latch [of t t'] show ?thesis by simp
next
  case OpArm
  with assms Arm_latch [OF assms(1)] show ?thesis by auto
qed

lemma closes_eq:
  "latch_ok t \<Longrightarrow> run_ops ops t = Inr t' \<Longrightarrow>
     closes ops t = (if done_chan t = Open \<and> done_chan t' = Closed then 1 else 0)
     \<and> (done_chan t = Closed \<longrightarrow> done_chan t' = Closed)"
proof (induction ops arbitrary: t)
  case Nil
  then show ?case by auto
next
  case (Cons x xs)
  from Cons.prems(2) obtain t1 where t1: "apply_op x t = Inr t1" "run_ops xs t1 = Inr t'"
    by (auto split: sum.splits)
  from apply_op_latch [OF Cons.prems(1) t1(1)]
  have l: "latch_ok t1" and c: "done_chan t = Closed \<longrightarrow> done_chan t1 = Closed" by blast+
  from Cons.IH [OF l t1(2)] c t1(1) show ?case
    by (cases "done_chan t"; cases "done_chan t1"; cases "done_chan t'") auto
qed

text \<open>What a run of whole calls from the fresh tracker has reached when it returns.\<close>

lemma run_ops_new_facts:
  "length ops < 2 ^ 63 \<Longrightarrow> run_ops ops newOutstandingMessageTracker = Inr t \<Longrightarrow>
     latch_ok t
     \<and> (armed t \<and> active t = 0 \<longrightarrow> done_chan t = Closed)
     \<and> sint (active t) = int (count_list ops OpInc) - int (count_list ops OpDec)
     \<and> 0 \<le> sint (active t)
     \<and> armed t = (OpArm \<in> set ops)"
proof (induction ops arbitrary: t rule: rev_induct)
  case Nil
  then show ?case
    by (auto simp: newOutstandingMessageTracker_def latch_ok_def tracker_ok_def)
next
  case (snoc x xs)
  from snoc.prems(2) obtain t0 where
    t0: "run_ops xs newOutstandingMessageTracker = Inr t0" "apply_op x t0 = Inr t"
    by (auto simp: run_ops_snoc split: sum.splits)
  from snoc.prems(1) have len: "length xs < 2 ^ 63" "int (length xs) < 2 ^ 63 - 1"
    by simp_all
  note ih = snoc.IH [OF len(1) t0(1)]
  have cnt: "int (count_list xs OpInc) \<le> int (length xs)"
    by (simp add: count_le_length)
  show ?case
  proof (cases x)
    case OpInc
    from ih cnt len(2) have "sint (active t0) < 2 ^ 63 - 1" by linarith
    from sint_inc64 [OF this] have s: "sint (active t0 + 1) = sint (active t0) + 1" .
    from ih s have nz: "active t0 + 1 \<noteq> 0" by (metis add_nonneg_eq_0_iff sint_0 zero_neq_one zero_le_one)
    from OpInc t0(2) ih s nz show ?thesis
      by (auto simp: Inc_def latch_ok_def tracker_ok_def)
  next
    case OpDec
    from ih have "- (2 ^ 63) < sint (active t0)" by simp
    from sint_dec64 [OF this] have s: "sint (active t0 - 1) = sint (active t0) - 1" .
    from OpDec t0(2) have d: "Dec t0 = Inr t" by simp
    then have nn: "0 \<le> sint (active t0 - 1)"
      by (auto simp: Dec_def Dec_add_def Let_def split: if_splits)
    from ih have l0: "latch_ok t0" by simp
    from Dec_latch [OF l0 d] ih s nn OpDec show ?thesis by auto
  next
    case OpArm
    from ih have l0: "latch_ok t0" by simp
    from Arm_latch [OF l0] OpArm t0(2) ih show ?thesis by auto
  qed
qed

lemma run_ops_succeeds:
  "length ops < 2 ^ 63 \<Longrightarrow>
   \<forall>k \<le> length ops. count_list (take k ops) OpDec \<le> count_list (take k ops) OpInc \<Longrightarrow>
   \<exists>t. run_ops ops newOutstandingMessageTracker = Inr t"
proof (induction ops rule: rev_induct)
  case Nil
  then show ?case by simp
next
  case (snoc x xs)
  from snoc.prems(1) have len: "length xs < 2 ^ 63" by simp
  have pre: "\<forall>k \<le> length xs. count_list (take k xs) OpDec \<le> count_list (take k xs) OpInc"
  proof (intro allI impI)
    fix k assume k: "k \<le> length xs"
    then have "k \<le> length (xs @ [x])" by simp
    with snoc.prems(2) have
      "count_list (take k (xs @ [x])) OpDec \<le> count_list (take k (xs @ [x])) OpInc"
      by blast
    with k show "count_list (take k xs) OpDec \<le> count_list (take k xs) OpInc" by simp
  qed
  from snoc.IH [OF len pre] obtain t0 where t0: "run_ops xs newOutstandingMessageTracker = Inr t0"
    by blast
  note f = run_ops_new_facts [OF len t0]
  then have l0: "latch_ok t0" by simp
  show ?case
  proof (cases x)
    case OpInc
    with t0 show ?thesis by (simp add: run_ops_snoc)
  next
    case OpArm
    with t0 Arm_latch [OF l0] show ?thesis by (auto simp: run_ops_snoc)
  next
    case OpDec
    from snoc.prems(2) have
      "count_list (take (length (xs @ [x])) (xs @ [x])) OpDec
         \<le> count_list (take (length (xs @ [x])) (xs @ [x])) OpInc"
      by blast
    with OpDec have "count_list xs OpDec + 1 \<le> count_list xs OpInc" by simp
    with f have pos: "1 \<le> sint (active t0)" by linarith
    then have "- (2 ^ 63) < sint (active t0)" by simp
    from sint_dec64 [OF this] pos have nn: "\<not> sint (active t0 - 1) < 0" by simp
    have "\<exists>t. Dec t0 = Inr t"
    proof (cases "active t0 - 1 = 0")
      case True
      have "latch_ok (t0\<lparr>active := active t0 - 1\<rparr>)"
        using l0 by (simp add: latch_ok_def tracker_ok_def)
      from Dec_locked_latch [OF this] True nn show ?thesis
        by (auto simp: Dec_def Dec_add_def Let_def)
    next
      case False
      with nn show ?thesis by (simp add: Dec_def Dec_add_def Let_def)
    qed
    with OpDec t0 show ?thesis by (auto simp: run_ops_snoc)
  qed
qed

section \<open>The tracker: claims\<close>

text \<open>
  Claim C6. A \<^verbatim>\<open>Dec\<close> whose result (the value the atomic add returns) is
  negative panics; in particular a \<^verbatim>\<open>Dec\<close> on a counter at zero, one with no
  matching \<^verbatim>\<open>Inc\<close> before it, panics. A \<^verbatim>\<open>Dec\<close> that returns leaves a
  counter that is not negative, and so does every interleaved execution from the fresh
  tracker that does not panic. The execution is shorter than \<open>2 ^ 63\<close> steps: the
  counter is an \<^verbatim>\<open>int64\<close> and \<^verbatim>\<open>Inc\<close> wraps at \<open>2 ^ 63 - 1\<close>. The panic
  ends the run: the process is taken to stop at it.
\<close>

theorem Dec_negative_aborts:
  "(sint (active t - 1) < 0 \<longrightarrow>
      Dec t = Inl (PanicValue ''outstandingMessageTracker: active < 0''))
   \<and> (active t = 0 \<longrightarrow>
      Dec t = Inl (PanicValue ''outstandingMessageTracker: active < 0''))
   \<and> (\<forall>t'. Dec t = Inr t' \<longrightarrow> 0 \<le> sint (active t'))
   \<and> (\<forall>s. length sched < 2 ^ 63 \<and> exec sched init_sys = Inr s \<longrightarrow>
          0 \<le> sint (active (trk s)))"
proof (intro conjI allI impI)
  assume "sint (active t - 1) < 0"
  then show "Dec t = Inl (PanicValue ''outstandingMessageTracker: active < 0'')"
    by (simp add: Dec_def Dec_add_def)
next
  assume "active t = 0"
  then show "Dec t = Inl (PanicValue ''outstandingMessageTracker: active < 0'')"
    by (simp add: Dec_def Dec_add_def)
next
  fix t' assume "Dec t = Inr t'"
  then show "0 \<le> sint (active t')"
    by (auto simp: Dec_def Dec_add_def Dec_locked_def Let_def
        split: if_splits dest!: markDone_cases)
next
  fix s assume "length sched < 2 ^ 63 \<and> exec sched init_sys = Inr s"
  then show "0 \<le> sint (active (trk s))"
    using exec_active_bounds [of sched s] by simp
qed

theorem Dec_negative_aborts_witness:
  "Dec newOutstandingMessageTracker = Inl (PanicValue ''outstandingMessageTracker: active < 0'')
   \<and> Dec (Inc newOutstandingMessageTracker) = Inr newOutstandingMessageTracker
   \<and> 0 \<le> sint (active newOutstandingMessageTracker)
   \<and> exec [SInc, SDecAdd, SDecLocked] init_sys = Inr init_sys
   \<and> 0 \<le> sint (active (trk init_sys))"
proof -
  have a: "active newOutstandingMessageTracker = 0"
    by (simp add: newOutstandingMessageTracker_def)
  have d: "Dec (Inc newOutstandingMessageTracker) = Inr newOutstandingMessageTracker"
    by (simp add: Dec_def Dec_add_def Dec_locked_def Inc_def newOutstandingMessageTracker_def)
  have e: "exec [SInc, SDecAdd, SDecLocked] init_sys = Inr init_sys"
    by (simp add: init_sys_def Dec_add_def Dec_locked_def Inc_def newOutstandingMessageTracker_def)
  have l: "length [SInc, SDecAdd, SDecLocked] < 2 ^ 63" by simp
  from Dec_negative_aborts [of newOutstandingMessageTracker "[SInc, SDecAdd, SDecLocked]"]
    Dec_negative_aborts [of "Inc newOutstandingMessageTracker" "[]"] a d e l
  show ?thesis by blast
qed

text \<open>
  Claim C7. In every state an interleaved execution from the fresh tracker reaches,
  \<^verbatim>\<open>ArmForShutdown\<close> on a counter at zero returns with the channel of
  \<^verbatim>\<open>Done\<close> closed: the signal fires in the arming call itself, with no further
  \<^verbatim>\<open>Dec\<close>.
\<close>

theorem ArmForShutdown_at_zero_fires:
  "exec sched init_sys = Inr s \<Longrightarrow> active (trk s) = 0 \<Longrightarrow>
     \<exists>t'. ArmForShutdown (trk s) = Inr t' \<and> armed t' \<and> Done t' = Closed \<and> active t' = 0"
proof -
  assume e: "exec sched init_sys = Inr s" and z: "active (trk s) = 0"
  have "latch_ok (trk init_sys)" by (simp add: init_sys_def latch_ok_new)
  from exec_latch [OF this e] have "latch_ok (trk s)" by simp
  from Arm_latch [OF this] z show ?thesis by (auto simp: Done_def)
qed

theorem ArmForShutdown_at_zero_fires_witness:
  "exec [SInc, SDecAdd, SDecLocked] init_sys = Inr init_sys \<and> active (trk init_sys) = 0 \<and>
   ArmForShutdown (trk init_sys) =
     Inr \<lparr>active = 0, closeOnce = True, done_chan = Closed, armed = True\<rparr>
   \<and> Done \<lparr>active = 0, closeOnce = True, done_chan = Closed, armed = True\<rparr> = Closed"
proof -
  have e: "exec [SInc, SDecAdd, SDecLocked] init_sys = Inr init_sys"
    by (simp add: init_sys_def Dec_add_def Dec_locked_def Inc_def newOutstandingMessageTracker_def)
  have z: "active (trk init_sys) = 0" by (simp add: init_sys_def newOutstandingMessageTracker_def)
  have r: "ArmForShutdown (trk init_sys) =
     Inr \<lparr>active = 0, closeOnce = True, done_chan = Closed, armed = True\<rparr>"
    by (simp add: init_sys_def newOutstandingMessageTracker_def ArmForShutdown_def markDone_def)
  from ArmForShutdown_at_zero_fires [OF e z] r e z show ?thesis by (auto simp: Done_def)
qed

text \<open>
  Claim C8, as amended. For every sequence of whole \<^verbatim>\<open>Inc\<close>, \<^verbatim>\<open>Dec\<close> and
  \<^verbatim>\<open>ArmForShutdown\<close> calls on the fresh tracker with as many \<^verbatim>\<open>Inc\<close> as
  \<^verbatim>\<open>Dec\<close>, in which no prefix has more \<^verbatim>\<open>Dec\<close> than \<^verbatim>\<open>Inc\<close> (every
  decrement has a matching increment before it), and shorter than \<open>2 ^ 63\<close> calls
  (the range of the \<^verbatim>\<open>int64\<close> counter): the run returns, the counter is back at
  zero, and the channel was closed exactly once if \<^verbatim>\<open>ArmForShutdown\<close> was among
  the calls, and never otherwise.
\<close>

theorem balanced_calls_return_to_zero:
  assumes "count_list ops OpInc = count_list ops OpDec"
    and "\<forall>k \<le> length ops. count_list (take k ops) OpDec \<le> count_list (take k ops) OpInc"
    and "length ops < 2 ^ 63"
  shows "\<exists>t. run_ops ops newOutstandingMessageTracker = Inr t \<and> active t = 0
           \<and> (if OpArm \<in> set ops
               then Done t = Closed \<and> closes ops newOutstandingMessageTracker = 1
               else Done t = Open \<and> closes ops newOutstandingMessageTracker = 0)"
proof -
  from run_ops_succeeds [OF assms(3) assms(2)] obtain t where
    t: "run_ops ops newOutstandingMessageTracker = Inr t" by blast
  note f = run_ops_new_facts [OF assms(3) t]
  with assms(1) have "sint (active t) = 0" by simp
  then have z: "active t = 0" by (metis signed_eq_0_iff)
  have o: "done_chan newOutstandingMessageTracker = Open"
    by (simp add: newOutstandingMessageTracker_def)
  note c = closes_eq [OF latch_ok_new t]
  show ?thesis
  proof (cases "OpArm \<in> set ops")
    case True
    with f z have "done_chan t = Closed" by simp
    with True t z c o show ?thesis by (simp add: Done_def)
  next
    case False
    with f have "\<not> armed t" by simp
    with f have "done_chan t \<noteq> Closed" by (auto simp: latch_ok_def)
    then have "done_chan t = Open" by (cases "done_chan t") simp_all
    with False t z c o show ?thesis by (simp add: Done_def)
  qed
qed

theorem balanced_calls_return_to_zero_witness:
  "count_list [OpInc, OpArm, OpInc, OpDec, OpDec] OpInc
     = count_list [OpInc, OpArm, OpInc, OpDec, OpDec] OpDec
   \<and> run_ops [OpInc, OpArm, OpInc, OpDec, OpDec] newOutstandingMessageTracker
       = Inr \<lparr>active = 0, closeOnce = True, done_chan = Closed, armed = True\<rparr>
   \<and> closes [OpInc, OpArm, OpInc, OpDec, OpDec] newOutstandingMessageTracker = 1"
proof -
  let ?ops = "[OpInc, OpArm, OpInc, OpDec, OpDec]"
  have b: "count_list ?ops OpInc = count_list ?ops OpDec" by simp
  have p: "\<forall>k \<le> length ?ops. count_list (take k ?ops) OpDec \<le> count_list (take k ?ops) OpInc"
  proof (intro allI impI)
    fix k assume "k \<le> length ?ops"
    then have "k = 0 \<or> k = 1 \<or> k = 2 \<or> k = 3 \<or> k = 4 \<or> k = 5" by auto
    then show "count_list (take k ?ops) OpDec \<le> count_list (take k ?ops) OpInc"
      by (elim disjE) (simp_all add: numeral_eq_Suc)
  qed
  have l: "length ?ops < 2 ^ 63" by simp
  have r: "run_ops ?ops newOutstandingMessageTracker
       = Inr \<lparr>active = 0, closeOnce = True, done_chan = Closed, armed = True\<rparr>"
    by (simp add: Dec_def Dec_add_def Dec_locked_def Inc_def ArmForShutdown_def markDone_def
        newOutstandingMessageTracker_def)
  from balanced_calls_return_to_zero [OF b p l] r b show ?thesis by auto
qed

text \<open>
  The claim C8 as stated, with equal counts alone, fails: \<^verbatim>\<open>Dec\<close> then
  \<^verbatim>\<open>Inc\<close> has one of each, and the first call panics.
\<close>

theorem balanced_calls_counterexample:
  "count_list [OpDec, OpInc] OpInc = count_list [OpDec, OpInc] OpDec
   \<and> run_ops [OpDec, OpInc] newOutstandingMessageTracker
       = Inl (PanicValue ''outstandingMessageTracker: active < 0'')"
  by (simp add: Dec_def Dec_add_def newOutstandingMessageTracker_def)

text \<open>
  Claim C10. From the fresh tracker, no interleaving of \<^verbatim>\<open>Inc\<close>, of the two
  parts of \<^verbatim>\<open>Dec\<close> and of \<^verbatim>\<open>ArmForShutdown\<close> ever closes the closed
  channel (the panic of a second \<^verbatim>\<open>close\<close>), and at most one step of it closes
  the channel; this covers a \<^verbatim>\<open>Dec\<close> that has seen zero and enters its critical
  section after, or before, an arming call. In every state reached,
  \<^verbatim>\<open>ArmForShutdown\<close> returns, a second \<^verbatim>\<open>ArmForShutdown\<close> changes nothing,
  and arming after the channel is closed returns the state as it was.
\<close>

theorem done_closed_at_most_once:
  "exec sched init_sys \<noteq> Inl CloseOfClosedChannel
   \<and> exec_closes sched init_sys \<le> 1
   \<and> (\<forall>s. exec sched init_sys = Inr s \<longrightarrow>
        (\<exists>t. ArmForShutdown (trk s) = Inr t \<and> ArmForShutdown t = Inr t)
        \<and> (done_chan (trk s) = Closed \<longrightarrow> ArmForShutdown (trk s) = Inr (trk s)))"
proof (intro conjI allI impI)
  have l0: "latch_ok (trk init_sys)" by (simp add: init_sys_def latch_ok_new)
  from exec_panic [OF l0] show "exec sched init_sys \<noteq> Inl CloseOfClosedChannel" by blast
  from exec_closes_le [OF l0, of sched] show "exec_closes sched init_sys \<le> 1"
    by (simp split: if_splits)
  fix s assume e: "exec sched init_sys = Inr s"
  from exec_latch [OF l0 e] have l: "latch_ok (trk s)" by simp
  from Arm_latch [OF l] obtain t where t: "ArmForShutdown (trk s) = Inr t" by blast
  have "ArmForShutdown t = Inr t"
    using t by (auto simp: ArmForShutdown_def Let_def markDone_def split: if_splits sum.splits)
  with t show "\<exists>t. ArmForShutdown (trk s) = Inr t \<and> ArmForShutdown t = Inr t" by blast
  assume c: "done_chan (trk s) = Closed"
  with l show "ArmForShutdown (trk s) = Inr (trk s)"
    by (auto simp: ArmForShutdown_def Let_def markDone_def latch_ok_def tracker_ok_def)
qed

theorem done_closed_at_most_once_witness:
  "exec [SInc, SArm, SDecAdd, SArm, SDecLocked, SArm] init_sys
     = Inr \<lparr>trk = \<lparr>active = 0, closeOnce = True, done_chan = Closed, armed = True\<rparr>,
            waiting = 0\<rparr>
   \<and> exec_closes [SInc, SArm, SDecAdd, SArm, SDecLocked, SArm] init_sys = 1
   \<and> ArmForShutdown \<lparr>active = 0, closeOnce = True, done_chan = Closed, armed = True\<rparr>
       = Inr \<lparr>active = 0, closeOnce = True, done_chan = Closed, armed = True\<rparr>"
proof -
  let ?sched = "[SInc, SArm, SDecAdd, SArm, SDecLocked, SArm]"
  let ?t = "\<lparr>active = 0, closeOnce = True, done_chan = Closed, armed = True\<rparr>"
  have e: "exec ?sched init_sys = Inr \<lparr>trk = ?t, waiting = 0\<rparr>"
    by (simp add: init_sys_def Dec_add_def Dec_locked_def Inc_def ArmForShutdown_def
        markDone_def newOutstandingMessageTracker_def)
  have c: "exec_closes ?sched init_sys = 1"
    by (simp add: init_sys_def Dec_add_def Dec_locked_def Inc_def ArmForShutdown_def
        markDone_def newOutstandingMessageTracker_def)
  from done_closed_at_most_once [of ?sched] e c show ?thesis by auto
qed

section \<open>Backoff policy: claims\<close>

lemma clamp_mono: "x \<le> y \<Longrightarrow> lo \<le> hi \<Longrightarrow> clamp x lo hi \<le> clamp y lo hi"
  by (simp add: clamp_def)

lemma clamp_bounds: "lo \<le> hi \<Longrightarrow> lo \<le> clamp x lo hi \<and> clamp x lo hi \<le> hi"
  by (simp add: clamp_def)

lemma clamp_below: "x \<le> lo \<Longrightarrow> lo \<le> hi \<Longrightarrow> clamp x lo hi = lo"
  by (simp add: clamp_def)

lemma nextDelay_mono:
  assumes "minBackoff \<le> maxBackoff" and "attempt \<le> later"
  shows "nextDelay minBackoff maxBackoff attempt \<le> nextDelay minBackoff maxBackoff later"
proof (cases "0 \<le> minBackoff")
  case True
  from assms(2) have "(2::int) ^ (attempt - 1) \<le> 2 ^ (later - 1)"
    by (intro power_increasing) simp_all
  from this True have "minBackoff * 2 ^ (attempt - 1) \<le> minBackoff * 2 ^ (later - 1)"
    by (rule mult_left_mono)
  from clamp_mono [OF this assms(1)] show ?thesis by (simp add: nextDelay_def)
next
  case False
  have "\<And>k. minBackoff * 2 ^ k \<le> minBackoff"
  proof -
    fix k :: nat
    have "(1::int) \<le> 2 ^ k" by simp
    with False have "minBackoff * 2 ^ k \<le> minBackoff * 1"
      by (intro mult_left_mono_neg) simp_all
    then show "minBackoff * 2 ^ k \<le> minBackoff" by simp
  qed
  with assms(1) show ?thesis by (simp add: nextDelay_def clamp_below)
qed

text \<open>
  Claim C4. For \<open>minBackoff \<le> maxBackoff\<close> and an attempt from 1 on, \<open>nextDelay\<close> is
  the doubled minimum clamped between the two bounds, it lies between them, it does not
  decrease from one attempt to a later one, and once it has reached \<open>maxBackoff\<close> it
  stays there.
\<close>

theorem nextDelay_clamped:
  assumes "minBackoff \<le> maxBackoff" and "1 \<le> attempt" and "attempt \<le> later"
  shows "nextDelay minBackoff maxBackoff attempt
           = max minBackoff (min maxBackoff (minBackoff * 2 ^ (attempt - 1)))
     \<and> minBackoff \<le> nextDelay minBackoff maxBackoff attempt
     \<and> nextDelay minBackoff maxBackoff attempt \<le> maxBackoff
     \<and> nextDelay minBackoff maxBackoff attempt \<le> nextDelay minBackoff maxBackoff later
     \<and> (nextDelay minBackoff maxBackoff attempt = maxBackoff
          \<longrightarrow> nextDelay minBackoff maxBackoff later = maxBackoff)"
proof -
  note m = nextDelay_mono [OF assms(1) assms(3)]
  have b: "minBackoff \<le> nextDelay minBackoff maxBackoff attempt"
    "nextDelay minBackoff maxBackoff attempt \<le> maxBackoff"
    "nextDelay minBackoff maxBackoff later \<le> maxBackoff"
    using clamp_bounds [OF assms(1)] by (simp_all add: nextDelay_def)
  have e: "nextDelay minBackoff maxBackoff attempt
           = max minBackoff (min maxBackoff (minBackoff * 2 ^ (attempt - 1)))"
    using assms(1) by (simp add: nextDelay_def clamp_def)
  from m b have "nextDelay minBackoff maxBackoff attempt = maxBackoff
          \<longrightarrow> nextDelay minBackoff maxBackoff later = maxBackoff"
    by linarith
  with m b e show ?thesis by blast
qed

theorem nextDelay_clamped_witness:
  "(1::int) \<le> 8 \<and> (1::nat) \<le> 3 \<and> (3::nat) \<le> 5
   \<and> nextDelay 1 8 1 = 1 \<and> nextDelay 1 8 2 = 2 \<and> nextDelay 1 8 3 = 4
   \<and> nextDelay 1 8 4 = 8 \<and> nextDelay 1 8 5 = 8
   \<and> nextDelay 1 8 3 \<le> nextDelay 1 8 5"
proof -
  have h: "(1::int) \<le> 8" "(1::nat) \<le> 3" "(3::nat) \<le> 5" by simp_all
  have v: "nextDelay 1 8 1 = 1" "nextDelay 1 8 2 = 2" "nextDelay 1 8 3 = 4"
    "nextDelay 1 8 4 = 8" "nextDelay 1 8 5 = 8"
    by (simp_all add: nextDelay_def clamp_def)
  from nextDelay_clamped [OF h] h v show ?thesis by simp
qed

section \<open>Manager and delivery: what the code does\<close>

lemma NewManager_outstanding: "outstanding (NewManager c) = None"
  by (simp add: NewManager_def)

lemma callback_nil_tracker:
  "outstanding m = None \<Longrightarrow>
     callback m traced unmarshal handler msgID deliveryAttempt attrs data
       = Panicked NilDereference []"
  by (simp add: callback_def)

lemma NewSubscription_mgr:
  "NewSubscription (Some t) name subscriptionCfg = Inr sub \<Longrightarrow>
     mgr t = Some (sub_mgr sub) \<and> sub_handler sub = Handler subscriptionCfg"
  by (auto simp: NewSubscription_def Let_def split: option.splits if_splits prod.splits sum.splits)

lemma example_registers:
  "NewSubscription (example_topic testing) ''mailer'' (example_subscription_cfg h rp) = Inr sub
     \<Longrightarrow> sub_mgr sub = NewManager (Some (example_config testing)) \<and> sub_handler sub = h"
  by (auto simp: example_topic_def example_subscription_cfg_def dest!: NewSubscription_mgr)

lemma example_mailer_declared:
  "\<exists>sub. NewSubscription (example_topic False) ''mailer'' (example_subscription_cfg h None)
     = Inr sub"
  by (simp add: NewSubscription_def getSubscriptionConfig_def example_topic_def
      example_subscription_cfg_def example_topic_cfg_def example_config_def NewManager_def)

lemma Shutdown_with_tracker:
  assumes "outstanding m = Some t" and "latch_ok t"
  shows "\<exists>t'. ArmForShutdown t = Inr t' \<and> armed t' \<and>
     Shutdown m force_done =
       (if Done t' = Closed \<or> force_done
        then ShutdownReturns (m\<lparr>ctx_done := True, outstanding := Some t'\<rparr>)
        else ShutdownWaits (m\<lparr>ctx_done := True, outstanding := Some t'\<rparr>))"
proof -
  from Arm_latch [OF assms(2)] obtain t' where "ArmForShutdown t = Inr t'" "armed t'" by blast
  with assms(1) show ?thesis by (auto simp: Shutdown_def Let_def)
qed

lemma Dec_Inc:
  assumes "latch_ok t" and "0 \<le> sint (active t)"
  shows "\<exists>t'. Dec (Inc t) = Inr t' \<and> active t' = active t \<and> latch_ok t'"
proof -
  have "Dec_add (Inc t) = Inr (t, active t = 0)"
    using assms(2) by (simp add: Dec_add_def Inc_def)
  then have d: "Dec (Inc t) = (if active t = 0 then Dec_locked t else Inr t)"
    by (simp add: Dec_def)
  from Dec_locked_latch [OF assms(1)] d assms(1) show ?thesis by auto
qed

text \<open>
  On a manager with a configuration whose tracker is installed (and consistent, with a
  counter that is not negative), the callback contains a panic of the handler whose
  recovered value is not nil, reports a decode failure without calling the handler,
  passes the handler's own result on, and leaves the counter where it found it. A
  panic whose recovered value is nil is contained too, and reported as success.
\<close>

lemma callback_handler_panic_contained:
  assumes "outstanding m = Some t" and "latch_ok t" and "0 \<le> sint (active t)"
    and "cfg m = Some c"
    and "unmarshal attrs data = Inr msg" and "handler msg = HandlerPanics (Some payload)"
  shows "\<exists>t' evs. callback m traced unmarshal handler msgID deliveryAttempt attrs data
        = Returned (Some (ErrsError Internal (''subscriber panicked: '' @ payload) None))
            (m\<lparr>outstanding := Some t'\<rparr>) evs
      \<and> active t' = active t"
proof -
  from Dec_Inc [OF assms(2,3)] obtain t' where "Dec (Inc t) = Inr t'" "active t' = active t"
    by blast
  with assms(1,4,5,6) show ?thesis
    by (auto simp: callback_def panicCatchWrapper_def Let_def)
qed

lemma callback_nil_panic_reported_as_success:
  assumes "outstanding m = Some t" and "latch_ok t" and "0 \<le> sint (active t)"
    and "cfg m = Some c"
    and "unmarshal attrs data = Inr msg" and "handler msg = HandlerPanics None"
  shows "\<exists>t' evs. callback m traced unmarshal handler msgID deliveryAttempt attrs data
        = Returned None (m\<lparr>outstanding := Some t'\<rparr>) evs
      \<and> active t' = active t"
proof -
  from Dec_Inc [OF assms(2,3)] obtain t' where "Dec (Inc t) = Inr t'" "active t' = active t"
    by blast
  with assms(1,4,5,6) show ?thesis
    by (auto simp: callback_def panicCatchWrapper_def Let_def)
qed

lemma callback_decode_failure:
  assumes "outstanding m = Some t" and "latch_ok t" and "0 \<le> sint (active t)"
    and "cfg m = Some c"
    and "unmarshal attrs data = Inl e"
  shows "\<exists>t' evs. callback m traced unmarshal handler msgID deliveryAttempt attrs data
        = Returned (Some (ErrsError Internal ''failed to unmarshal message'' (Some e)))
            (m\<lparr>outstanding := Some t'\<rparr>) evs
      \<and> active t' = active t \<and> HandlerCalled \<notin> set evs
      \<and> LogUnmarshalFailure msgID deliveryAttempt e \<in> set evs"
proof -
  from Dec_Inc [OF assms(2,3)] obtain t' where "Dec (Inc t) = Inr t'" "active t' = active t"
    by blast
  with assms(1,4,5) show ?thesis
    by (auto simp: callback_def Let_def)
qed

lemma callback_returns_handler_result:
  assumes "outstanding m = Some t" and "latch_ok t" and "0 \<le> sint (active t)"
    and "cfg m = Some c"
    and "unmarshal attrs data = Inr msg" and "handler msg = HandlerReturns r"
  shows "\<exists>t' evs. callback m traced unmarshal handler msgID deliveryAttempt attrs data
        = Returned r (m\<lparr>outstanding := Some t'\<rparr>) evs
      \<and> active t' = active t"
proof -
  from Dec_Inc [OF assms(2,3)] obtain t' where "Dec (Inc t) = Inr t'" "active t' = active t"
    by blast
  with assms(1,4,5,6) show ?thesis
    by (auto simp: callback_def panicCatchWrapper_def Let_def)
qed

text \<open>
  Claim C1. \<^verbatim>\<open>NewManager\<close> leaves \<^verbatim>\<open>outstanding\<close> nil, so on every manager
  it makes \<^verbatim>\<open>Shutdown\<close> cancels the context and then panics in
  \<^verbatim>\<open>ArmForShutdown\<close> with a nil pointer dereference: the tracker is never armed and
  the select on the two channels is never reached.
\<close>

theorem Shutdown_of_NewManager:
  "Shutdown (NewManager c) force_done
     = ShutdownPanics NilDereference ((NewManager c)\<lparr>ctx_done := True\<rparr>)"
  by (simp add: Shutdown_def NewManager_def)

text \<open>
  Claim C2. On the example topic, whose manager comes from \<^verbatim>\<open>NewManager\<close>, a
  delivery to a registered subscription whose handler panics does not return an
  internal error: the callback itself panics with a nil pointer dereference at
  \<^verbatim>\<open>mgr.outstanding.Inc()\<close>, before the handler is called and before
  \<^verbatim>\<open>Dec\<close> is deferred.
\<close>

theorem handler_panic_on_NewManager:
  "register_then_deliver (example_topic False) ''mailer''
     (example_subscription_cfg panicking_handler None) True example_unmarshal
     ''msg-1'' 1 Map.empty [42]
   = Inr (Panicked NilDereference [])"
proof -
  obtain sub where s: "NewSubscription (example_topic False) ''mailer''
     (example_subscription_cfg panicking_handler None) = Inr sub"
    using example_mailer_declared by blast
  from example_registers [OF s] have "outstanding (sub_mgr sub) = None"
    by (simp add: NewManager_outstanding)
  from callback_nil_tracker [OF this] s show ?thesis
    by (simp add: register_then_deliver_def deliver_def)
qed

text \<open>
  Claim C5. On the same topic, a delivery whose payload does not decode does not return
  an internal error and logs nothing: the callback panics with a nil pointer dereference
  at \<^verbatim>\<open>mgr.outstanding.Inc()\<close>, before the payload is decoded.
\<close>

theorem decode_failure_on_NewManager:
  "example_unmarshal Map.empty [] = Inl (OtherError ''unexpected payload length'')
   \<and> register_then_deliver (example_topic False) ''mailer''
       (example_subscription_cfg quiet_handler None) True example_unmarshal
       ''msg-1'' 1 Map.empty []
     = Inr (Panicked NilDereference [])"
proof -
  obtain sub where s: "NewSubscription (example_topic False) ''mailer''
     (example_subscription_cfg quiet_handler None) = Inr sub"
    using example_mailer_declared by blast
  from example_registers [OF s] have "outstanding (sub_mgr sub) = None"
    by (simp add: NewManager_outstanding)
  from callback_nil_tracker [OF this] s show ?thesis
    by (simp add: register_then_deliver_def deliver_def example_unmarshal_def)
qed

section \<open>The registrar: claims\<close>

text \<open>
  Claim C3, as amended. When a registration succeeds: with no retry policy supplied
  the resulting policy is 10 seconds, 10 minutes and 100 retries; with a policy
  supplied, a zero \<open>MinBackoff\<close> becomes 10 seconds, a zero \<open>MaxBackoff\<close> becomes 10
  minutes, other bounds are kept, and \<open>MaxRetries\<close> is kept as supplied.
\<close>

theorem NewSubscription_defaults:
  assumes "resulting_policy tp name subscriptionCfg = Inr rp"
  shows "(RetryPolicy subscriptionCfg = None \<longrightarrow>
            rp = \<lparr>MinBackoff = 10 * Second, MaxBackoff = 10 * Minute, MaxRetries = 100\<rparr>)
     \<and> (\<forall>p. RetryPolicy subscriptionCfg = Some p \<longrightarrow>
            rp = \<lparr>MinBackoff = (if MinBackoff p = 0 then 10 * Second else MinBackoff p),
                  MaxBackoff = (if MaxBackoff p = 0 then 10 * Minute else MaxBackoff p),
                  MaxRetries = MaxRetries p\<rparr>)"
  using assms
  by (auto simp: resulting_policy_def NewSubscription_def WithDefaultValue_def Let_def
      split: option.splits if_splits prod.splits sum.splits)

theorem NewSubscription_defaults_witness:
  "resulting_policy (example_topic False) ''mailer'' (example_subscription_cfg quiet_handler None)
     = Inr \<lparr>MinBackoff = 10 * Second, MaxBackoff = 10 * Minute, MaxRetries = 100\<rparr>
   \<and> resulting_policy (example_topic False) ''mailer''
       (example_subscription_cfg quiet_handler
          (Some \<lparr>MinBackoff = 0, MaxBackoff = 5 * Second, MaxRetries = 3\<rparr>))
     = Inr \<lparr>MinBackoff = 10 * Second, MaxBackoff = 5 * Second, MaxRetries = 3\<rparr>
   \<and> 10 * Second = (10000000000 :: Duration) \<and> 10 * Minute = (600000000000 :: Duration)"
proof -
  let ?p = "\<lparr>MinBackoff = 0, MaxBackoff = 5 * Second, MaxRetries = 3\<rparr>"
  obtain r1 where r1: "resulting_policy (example_topic False) ''mailer''
      (example_subscription_cfg quiet_handler None) = Inr r1"
    by (simp add: resulting_policy_def NewSubscription_def getSubscriptionConfig_def
      example_topic_def example_subscription_cfg_def example_topic_cfg_def example_config_def
      NewManager_def)
  obtain r2 where r2: "resulting_policy (example_topic False) ''mailer''
      (example_subscription_cfg quiet_handler (Some ?p)) = Inr r2"
    by (simp add: resulting_policy_def NewSubscription_def getSubscriptionConfig_def
      example_topic_def example_subscription_cfg_def example_topic_cfg_def example_config_def
      NewManager_def Second_def)
  have n: "5 * Second \<noteq> (0 :: Duration)" by (simp add: Second_def)
  from NewSubscription_defaults [OF r1] NewSubscription_defaults [OF r2] r1 r2 n
  show ?thesis by (simp add: example_subscription_cfg_def Second_def Minute_def)
qed

text \<open>
  The claim C3 as stated fails for a supplied policy with every field left at zero:
  the bounds get their defaults, and \<open>MaxRetries\<close> stays 0, not 100.
\<close>

theorem NewSubscription_defaults_counterexample:
  "resulting_policy (example_topic False) ''mailer''
     (example_subscription_cfg quiet_handler
        (Some \<lparr>MinBackoff = 0, MaxBackoff = 0, MaxRetries = 0\<rparr>))
   = Inr \<lparr>MinBackoff = 10000000000, MaxBackoff = 600000000000, MaxRetries = 0\<rparr>"
  by (simp add: resulting_policy_def NewSubscription_def getSubscriptionConfig_def
      example_topic_def example_subscription_cfg_def example_topic_cfg_def example_config_def
      NewManager_def WithDefaultValue_def Second_def Minute_def)




end
